theory Spec2Isabelle
  imports Complex_Main "HOL-Library.Char_ord" "HOL-Library.List_Lexorder" "HOL-Library.Multiset"
begin

section \<open>Python values\<close>

text \<open>
  The aggregation code of \<^verbatim>\<open>src/build_dashboards.py\<close> and of the older
  \<^verbatim>\<open>update_data.py\<close> works on rows that are Python dicts from a field name to a
  scalar. A scalar is \<^verbatim>\<open>None\<close>, a \<^verbatim>\<open>str\<close>, an \<^verbatim>\<open>int\<close> or a \<^verbatim>\<open>float\<close>.

  Strings are byte strings here (ASCII text; the order of UTF-8 bytes is the order of code
  points, so comparisons agree, while \<^verbatim>\<open>lower()\<close> and \<^verbatim>\<open>\d\<close> are the ASCII ones).
  A float that a row or the configuration holds is a finite number, taken as a real: rounding
  and overflow are not modelled. The floats that the code computes are of type \<open>pyfloat\<close>,
  which adds the two infinities and NaN, because \<^verbatim>\<open>float('inf')\<close> and \<^verbatim>\<open>float('nan')\<close>
  are results of \<^verbatim>\<open>to_number\<close>. Two kinds of value are left out: a \<^verbatim>\<open>bool\<close>, and
  an int too large for a float (\<^verbatim>\<open>float\<close> of one raises \<^verbatim>\<open>OverflowError\<close>); a CSV
  file gives strings only, and a parquet file gives ints of 64 bits.
\<close>

datatype pyval = PNone | PStr string | PInt int | PFloat real

datatype pyfloat = Fin real | PInf | NInf | NaN

datatype py_error = ValueError | TypeError | AttributeError

text \<open>
  What the interpreter decides and the source does not: the order in which a \<^verbatim>\<open>set\<close>
  is iterated (a function of the elements in the order of their insertion, fixed for one
  process by its hash seed), and the text \<^verbatim>\<open>str\<close> gives for a float.
\<close>

record runtime =
  set_iter :: "pyval list \<Rightarrow> pyval list"
  float_repr :: "real \<Rightarrow> string"

subsection \<open>Truth value, equality, text\<close>

fun py_truthy :: "pyval \<Rightarrow> bool" where
  "py_truthy PNone = False"
| "py_truthy (PStr s) = (s \<noteq> [])"
| "py_truthy (PInt i) = (i \<noteq> 0)"
| "py_truthy (PFloat r) = (r \<noteq> 0)"

text \<open>\<^verbatim>\<open>==\<close>, which dict and set lookups use: an int equals the float of the same value.\<close>

fun py_eq :: "pyval \<Rightarrow> pyval \<Rightarrow> bool" where
  "py_eq PNone PNone = True"
| "py_eq (PStr a) (PStr b) = (a = b)"
| "py_eq (PInt a) (PInt b) = (a = b)"
| "py_eq (PInt a) (PFloat b) = (of_int a = b)"
| "py_eq (PFloat a) (PInt b) = (a = of_int b)"
| "py_eq (PFloat a) (PFloat b) = (a = b)"
| "py_eq _ _ = False"

definition is_digit :: "char \<Rightarrow> bool" where
  "is_digit c = (c \<in> set ''0123456789'')"

definition digit_val :: "char \<Rightarrow> nat" where
  "digit_val c = of_char c - of_char (CHR ''0'')"

definition digits_val :: "string \<Rightarrow> nat" where
  "digits_val ds = foldl (\<lambda>a c. 10 * a + digit_val c) 0 ds"

definition digit_char :: "nat \<Rightarrow> char" where
  "digit_char n = ''0123456789'' ! (n mod 10)"

fun nat_str :: "nat \<Rightarrow> string" where
  "nat_str n = (if n < 10 then [digit_char n] else nat_str (n div 10) @ [digit_char n])"

declare nat_str.simps [simp del]

definition int_str :: "int \<Rightarrow> string" where
  "int_str i = (if i < 0 then CHR ''-'' # nat_str (nat (- i)) else nat_str (nat i))"

text \<open>\<^verbatim>\<open>str(value)\<close>.\<close>

fun py_str :: "runtime \<Rightarrow> pyval \<Rightarrow> string" where
  "py_str rt PNone = ''None''"
| "py_str rt (PStr s) = s"
| "py_str rt (PInt i) = int_str i"
| "py_str rt (PFloat r) = float_repr rt r"

text \<open>
  The characters \<^verbatim>\<open>str.strip()\<close>, \<^verbatim>\<open>int()\<close> and \<^verbatim>\<open>float()\<close> take for white space:
  tab to carriage return, the four separators 0x1C to 0x1F, and the space.
\<close>

definition is_space :: "char \<Rightarrow> bool" where
  "is_space c =
     (c \<in> {CHR 0x09, CHR 0x0A, CHR 0x0B, CHR 0x0C, CHR 0x0D,
            CHR 0x1C, CHR 0x1D, CHR 0x1E, CHR 0x1F, CHR '' ''})"

definition py_strip :: "string \<Rightarrow> string" where
  "py_strip s = rev (dropWhile is_space (rev (dropWhile is_space s)))"

definition lower_char :: "char \<Rightarrow> char" where
  "lower_char c =
     (if CHR ''A'' \<le> c \<and> c \<le> CHR ''Z'' then char_of (of_char c + (32::nat)) else c)"

definition py_lower :: "string \<Rightarrow> string" where
  "py_lower s = map lower_char s"

text \<open>\<^verbatim>\<open>s.replace(c, '')\<close> for a one-character \<^verbatim>\<open>c\<close>.\<close>

definition py_remove :: "char \<Rightarrow> string \<Rightarrow> string" where
  "py_remove c s = filter (\<lambda>x. x \<noteq> c) s"

fun starts_with :: "string \<Rightarrow> string \<Rightarrow> bool" where
  "starts_with [] hs = True"
| "starts_with (n # ns) [] = False"
| "starts_with (n # ns) (h # hs) = (n = h \<and> starts_with ns hs)"

text \<open>\<^verbatim>\<open>needle in haystack\<close> for two strings.\<close>

fun py_in_str :: "string \<Rightarrow> string \<Rightarrow> bool" where
  "py_in_str needle [] = (needle = [])"
| "py_in_str needle (h # hs) = (starts_with needle (h # hs) \<or> py_in_str needle hs)"

subsection \<open>Floats\<close>

fun fadd :: "pyfloat \<Rightarrow> pyfloat \<Rightarrow> pyfloat" where
  "fadd (Fin a) (Fin b) = Fin (a + b)"
| "fadd NaN _ = NaN"
| "fadd _ NaN = NaN"
| "fadd PInf NInf = NaN"
| "fadd NInf PInf = NaN"
| "fadd PInf _ = PInf"
| "fadd _ PInf = PInf"
| "fadd NInf _ = NInf"
| "fadd _ NInf = NInf"

fun fneg :: "pyfloat \<Rightarrow> pyfloat" where
  "fneg (Fin a) = Fin (- a)"
| "fneg PInf = NInf"
| "fneg NInf = PInf"
| "fneg NaN = NaN"

fun flt :: "pyfloat \<Rightarrow> pyfloat \<Rightarrow> bool" where
  "flt (Fin a) (Fin b) = (a < b)"
| "flt NaN _ = False"
| "flt _ NaN = False"
| "flt NInf NInf = False"
| "flt NInf _ = True"
| "flt PInf _ = False"
| "flt _ PInf = True"
| "flt _ NInf = False"

fun fge :: "pyfloat \<Rightarrow> pyfloat \<Rightarrow> bool" where
  "fge NaN _ = False"
| "fge _ NaN = False"
| "fge a b = (\<not> flt a b)"

subsection \<open>The builtins \<^verbatim>\<open>float()\<close> and \<^verbatim>\<open>int()\<close> on a string\<close>

text \<open>
  After a digit: the rest of a \<^verbatim>\<open>digitpart\<close>, digits with single underscores between
  them. The result is the digits read and the text left.
\<close>

fun digits_us :: "string \<Rightarrow> string \<times> string" where
  "digits_us [] = ([], [])"
| "digits_us (c # cs) =
     (if is_digit c then (case digits_us cs of (ds, r) \<Rightarrow> (c # ds, r))
      else if c = CHR ''_'' then
        (case cs of
           [] \<Rightarrow> ([], c # cs)
         | d # cs' \<Rightarrow>
             if is_digit d then (case digits_us cs' of (ds, r) \<Rightarrow> (d # ds, r))
             else ([], c # cs))
      else ([], c # cs))"

definition digitpart :: "string \<Rightarrow> (string \<times> string) option" where
  "digitpart s =
     (case s of
        [] \<Rightarrow> None
      | c # cs \<Rightarrow> if is_digit c then (case digits_us cs of (ds, r) \<Rightarrow> Some (c # ds, r)) else None)"

text \<open>An optional sign: whether it is a minus, and the text after it.\<close>

definition take_sign :: "string \<Rightarrow> bool \<times> string" where
  "take_sign s =
     (case s of
        [] \<Rightarrow> (False, [])
      | c # cs \<Rightarrow> if c = CHR ''-'' then (True, cs) else if c = CHR ''+'' then (False, cs)
                 else (False, c # cs))"

text \<open>
  \<^verbatim>\<open>int(s)\<close> in base 10; \<open>None\<close> is the \<^verbatim>\<open>ValueError\<close>. The interpreter's limit on
  the number of digits (4300 unless configured) is not modelled.
\<close>

definition int_of_str :: "string \<Rightarrow> int option" where
  "int_of_str s =
     (case take_sign (py_strip s) of (neg, t) \<Rightarrow>
        (case digitpart t of
           Some (ds, []) \<Rightarrow> Some (if neg then - int (digits_val ds) else int (digits_val ds))
         | _ \<Rightarrow> None))"

text \<open>
  The exponent of a float literal, if one is written: \<open>Some 0\<close> when the text is at its
  end, \<open>None\<close> when what follows is no exponent.
\<close>

definition exponent :: "string \<Rightarrow> int option" where
  "exponent s =
     (case s of
        [] \<Rightarrow> Some 0
      | c # cs \<Rightarrow>
          if c = CHR ''e'' \<or> c = CHR ''E'' then
            (case take_sign cs of (neg, t) \<Rightarrow>
               (case digitpart t of
                  Some (ds, []) \<Rightarrow> Some (if neg then - int (digits_val ds) else int (digits_val ds))
                | _ \<Rightarrow> None))
          else None)"

text \<open>The number \<open>m \<times> 10\<^sup>e\<close>.\<close>

definition scale10 :: "nat \<Rightarrow> int \<Rightarrow> real" where
  "scale10 m e = (if 0 \<le> e then real m * 10 ^ nat e else real m / 10 ^ nat (- e))"

text \<open>
  \<^verbatim>\<open>floatnumber\<close>: \<^verbatim>\<open>[digitpart] "." digitpart | digitpart ["."]\<close>, then an optional
  exponent.
\<close>

definition float_number :: "string \<Rightarrow> real option" where
  "float_number s =
     (case digitpart s of
        Some (ip, r) \<Rightarrow>
          (case r of
             c # r' \<Rightarrow>
               if c = CHR ''.'' then
                 (case digitpart r' of
                    Some (fp, r'') \<Rightarrow>
                      map_option (\<lambda>e. scale10 (digits_val (ip @ fp)) (e - int (length fp)))
                        (exponent r'')
                  | None \<Rightarrow> map_option (scale10 (digits_val ip)) (exponent r'))
               else map_option (scale10 (digits_val ip)) (exponent r)
           | [] \<Rightarrow> Some (real (digits_val ip)))
      | None \<Rightarrow>
          (case s of
             c # r' \<Rightarrow>
               if c = CHR ''.'' then
                 (case digitpart r' of
                    Some (fp, r'') \<Rightarrow>
                      map_option (\<lambda>e. scale10 (digits_val fp) (e - int (length fp)))
                        (exponent r'')
                  | None \<Rightarrow> None)
               else None
           | [] \<Rightarrow> None))"

text \<open>
  \<^verbatim>\<open>float(s)\<close>: white space around the literal is dropped, a sign may come first, and
  \<^verbatim>\<open>inf\<close>, \<^verbatim>\<open>infinity\<close> and \<^verbatim>\<open>nan\<close> are accepted in any case. \<open>None\<close> is the
  \<^verbatim>\<open>ValueError\<close>.
\<close>

definition float_of_str :: "string \<Rightarrow> pyfloat option" where
  "float_of_str s =
     (case take_sign (py_strip s) of (neg, t) \<Rightarrow>
        (if py_lower t = ''inf'' \<or> py_lower t = ''infinity'' then Some (if neg then NInf else PInf)
         else if py_lower t = ''nan'' then Some NaN
         else map_option (\<lambda>x. Fin (if neg then - x else x)) (float_number t)))"

section \<open>The value normaliser: \<^verbatim>\<open>to_number\<close>\<close>

text \<open>
  \<^verbatim>\<open>
  def to_number(value) -> float:
      if isinstance(value, (int, float)):
          return float(value)
      if not value:
          return 0.0
      cleaned = str(value).replace('$', '').replace(',', '').replace(' ', '')
      try:
          return float(cleaned)
      except ValueError:
          return 0.0
  \<close>
  The function is the same text in both files.
\<close>

fun to_number :: "pyval \<Rightarrow> pyfloat" where
  "to_number (PInt i) = Fin (of_int i)"
| "to_number (PFloat r) = Fin r"
| "to_number PNone = Fin 0"
| "to_number (PStr s) =
     (if s = [] then Fin 0
      else
        (case float_of_str (py_remove (CHR '' '') (py_remove (CHR '','') (py_remove (CHR ''$'') s))) of
           Some x \<Rightarrow> x
         | None \<Rightarrow> Fin 0))"

section \<open>The year extractor: \<^verbatim>\<open>extract_year\<close>\<close>

text \<open>
  \<^verbatim>\<open>
  def extract_year(value: str) -> str | None:
      if not value:
          return None
      value_str = str(value).strip()
      match = re.search(r'(19\d{2}|20\d{2})', value_str)
      if match:
          return match.group(1)
      return None
  \<close>
  \<open>year_at\<close> is a match of the pattern at the start of the text, \<open>re_search_year\<close> is
  \<^verbatim>\<open>re.search\<close>: the match at the leftmost position that has one.
\<close>

fun year_at :: "string \<Rightarrow> string option" where
  "year_at (a # b # c # d # rest) =
     (if ((a = CHR ''1'' \<and> b = CHR ''9'') \<or> (a = CHR ''2'' \<and> b = CHR ''0''))
         \<and> is_digit c \<and> is_digit d
      then Some [a, b, c, d] else None)"
| "year_at _ = None"

fun re_search_year :: "string \<Rightarrow> string option" where
  "re_search_year [] = None"
| "re_search_year (c # cs) =
     (case year_at (c # cs) of Some y \<Rightarrow> Some y | None \<Rightarrow> re_search_year cs)"

definition extract_year :: "runtime \<Rightarrow> pyval \<Rightarrow> string option" where
  "extract_year rt v =
     (if \<not> py_truthy v then None else re_search_year (py_strip (py_str rt v)))"

text \<open>
  The older \<^verbatim>\<open>update_data.py\<close> takes any four digits and never gives up:
  \<^verbatim>\<open>
  def extract_year(value: str) -> str:
      if not value:
          return "Unknown"
      match = re.search(r'(\d{4})', str(value))
      return match.group(1) if match else str(value).strip()
  \<close>
\<close>

fun digits4_at :: "string \<Rightarrow> string option" where
  "digits4_at (a # b # c # d # rest) =
     (if is_digit a \<and> is_digit b \<and> is_digit c \<and> is_digit d then Some [a, b, c, d] else None)"
| "digits4_at _ = None"

fun re_search_digits4 :: "string \<Rightarrow> string option" where
  "re_search_digits4 [] = None"
| "re_search_digits4 (c # cs) =
     (case digits4_at (c # cs) of Some y \<Rightarrow> Some y | None \<Rightarrow> re_search_digits4 cs)"

definition extract_year_upd :: "runtime \<Rightarrow> pyval \<Rightarrow> string" where
  "extract_year_upd rt v =
     (if \<not> py_truthy v then ''Unknown''
      else (case re_search_digits4 (py_str rt v) of
              Some y \<Rightarrow> y
            | None \<Rightarrow> py_strip (py_str rt v)))"

section \<open>The row filter\<close>

text \<open>
  A row is a dict from field names to scalars; \<open>row_get\<close> is \<^verbatim>\<open>row.get(key, default)\<close>.
  A filter is a dict that may hold the keys \<^verbatim>\<open>field\<close>, \<^verbatim>\<open>include\<close> and
  \<^verbatim>\<open>contains\<close> (\<^verbatim>\<open>includeContains\<close> in a mapping file of \<^verbatim>\<open>update_data.py\<close>); an
  absent \<^verbatim>\<open>field\<close> reads as the empty string, as \<^verbatim>\<open>get('field', '')\<close> has it. The
  empty dict, which the code lets pass as it does \<^verbatim>\<open>None\<close>, is the record with no list.
\<close>

type_synonym row = "string \<Rightarrow> pyval option"

definition row_get :: "row \<Rightarrow> string \<Rightarrow> pyval \<Rightarrow> pyval" where
  "row_get r k d = (case r k of None \<Rightarrow> d | Some v \<Rightarrow> v)"

record filter_config =
  f_field :: string
  f_include :: "pyval list option"
  f_contains :: "string list option"

text \<open>
  \<^verbatim>\<open>
  def row_matches_filter(row: dict, filter_config: dict | None) -> bool:
      if not filter_config:
          return True
      field = filter_config.get('field', '')
      value = row.get(field, '') or ''
      if 'include' in filter_config:
          if value not in filter_config['include']:
              return False
      if 'contains' in filter_config:
          matched = any(
              item.lower() in str(value).lower()
              for item in filter_config['contains']
          )
          if not matched:
              return False
      return True
  \<close>
\<close>

definition row_matches_filter :: "runtime \<Rightarrow> row \<Rightarrow> filter_config option \<Rightarrow> bool" where
  "row_matches_filter rt r fc =
     (case fc of
        None \<Rightarrow> True
      | Some f \<Rightarrow>
          (let v0 = row_get r (f_field f) (PStr []);
               v = (if py_truthy v0 then v0 else PStr [])
           in if (case f_include f of None \<Rightarrow> False | Some inc \<Rightarrow> \<not> list_ex (py_eq v) inc)
              then False
              else if (case f_contains f of
                         None \<Rightarrow> False
                       | Some items \<Rightarrow>
                           \<not> list_ex (\<lambda>item. py_in_str (py_lower item) (py_lower (py_str rt v))) items)
              then False
              else True))"

text \<open>
  \<^verbatim>\<open>row_matches_mapping\<close> of \<^verbatim>\<open>update_data.py\<close> is the same but for the test
  \<^verbatim>\<open>item.lower() in value.lower()\<close>: a value that is no string has no \<^verbatim>\<open>lower\<close>, and
  the call raises \<^verbatim>\<open>AttributeError\<close> as soon as one item is tried.
\<close>

definition row_matches_mapping :: "row \<Rightarrow> filter_config option \<Rightarrow> py_error + bool" where
  "row_matches_mapping r fc =
     (case fc of
        None \<Rightarrow> Inr True
      | Some f \<Rightarrow>
          (let v0 = row_get r (f_field f) (PStr []);
               v = (if py_truthy v0 then v0 else PStr [])
           in if (case f_include f of None \<Rightarrow> False | Some inc \<Rightarrow> \<not> list_ex (py_eq v) inc)
              then Inr False
              else (case f_contains f of
                      None \<Rightarrow> Inr True
                    | Some items \<Rightarrow>
                        (if items = [] then Inr False
                         else (case v of
                                 PStr s \<Rightarrow> Inr (list_ex (\<lambda>item. py_in_str (py_lower item) (py_lower s)) items)
                               | _ \<Rightarrow> Inl AttributeError)))))"

section \<open>Dicts, sets and sorting\<close>

text \<open>
  A dict keeps its keys in the order of their insertion and finds a key by \<^verbatim>\<open>==\<close>; it is
  a list of pairs. \<open>dict_upd f d k\<close> is \<^verbatim>\<open>m[k] = f(m[k])\<close> on a \<^verbatim>\<open>defaultdict\<close> whose
  default is \<open>d\<close>: the statement \<^verbatim>\<open>m[k] += v\<close> of the source.
\<close>

type_synonym 'v pydict = "(pyval \<times> 'v) list"

fun dict_get :: "'v pydict \<Rightarrow> pyval \<Rightarrow> 'v option" where
  "dict_get [] k = None"
| "dict_get ((k', v) # kvs) k = (if py_eq k' k then Some v else dict_get kvs k)"

fun dict_upd :: "('v \<Rightarrow> 'v) \<Rightarrow> 'v \<Rightarrow> pyval \<Rightarrow> 'v pydict \<Rightarrow> 'v pydict" where
  "dict_upd f d k [] = [(k, f d)]"
| "dict_upd f d k ((k', v) # kvs) =
     (if py_eq k' k then (k', f v) # kvs else (k', v) # dict_upd f d k kvs)"

text \<open>\<^verbatim>\<open>m.get(k, d)\<close>, and \<^verbatim>\<open>m[k]\<close> on a \<^verbatim>\<open>defaultdict\<close> with default \<open>d\<close>.\<close>

definition dict_get_or :: "'v pydict \<Rightarrow> pyval \<Rightarrow> 'v \<Rightarrow> 'v" where
  "dict_get_or m k d = (case dict_get m k of None \<Rightarrow> d | Some v \<Rightarrow> v)"

text \<open>
  A set is the list of its elements in the order of their insertion; \<open>set_add\<close> is
  \<^verbatim>\<open>s.add(x)\<close>. The code reads a set only by iterating it, which is \<open>set_iter\<close> of the
  runtime.
\<close>

definition set_add :: "pyval \<Rightarrow> pyval list \<Rightarrow> pyval list" where
  "set_add x xs = (if list_ex (\<lambda>y. py_eq y x) xs then xs else xs @ [x])"

text \<open>
  \<^verbatim>\<open>sorted\<close> is stable and compares with \<^verbatim>\<open><\<close> only. \<open>py_sorted lt\<close> is the stable
  insertion sort for the comparison \<open>lt\<close>; where \<open>lt\<close> orders the elements (no NaN among
  the keys) its result is the one stable sorted list there is. \<open>py_slice_to n\<close> is the slice
  \<^verbatim>\<open>[:n]\<close>, whose negative \<open>n\<close> counts from the end.
\<close>

fun insert_by :: "('a \<Rightarrow> 'a \<Rightarrow> bool) \<Rightarrow> 'a \<Rightarrow> 'a list \<Rightarrow> 'a list" where
  "insert_by lt x [] = [x]"
| "insert_by lt x (y # ys) = (if lt y x then y # insert_by lt x ys else x # y # ys)"

definition py_sorted :: "('a \<Rightarrow> 'a \<Rightarrow> bool) \<Rightarrow> 'a list \<Rightarrow> 'a list" where
  "py_sorted lt xs = foldr (insert_by lt) xs []"

definition py_slice_to :: "int \<Rightarrow> 'a list \<Rightarrow> 'a list" where
  "py_slice_to n xs = (if 0 \<le> n then take (nat n) xs else take (length xs - nat (- n)) xs)"

text \<open>
  \<^verbatim>\<open>int(x)\<close> of a scalar: a string is parsed, a float is cut towards zero, and
  \<^verbatim>\<open>None\<close> is a \<^verbatim>\<open>TypeError\<close>.
\<close>

fun py_int :: "pyval \<Rightarrow> py_error + int" where
  "py_int (PStr s) = (case int_of_str s of None \<Rightarrow> Inl ValueError | Some i \<Rightarrow> Inr i)"
| "py_int (PInt i) = Inr i"
| "py_int (PFloat r) = Inr (if 0 \<le> r then \<lfloor>r\<rfloor> else \<lceil>r\<rceil>)"
| "py_int PNone = Inl TypeError"

text \<open>
  The keys of \<^verbatim>\<open>sorted(xs, key=lambda x: int(x))\<close>: computed for every element in turn
  before any comparison, so the first failure is the error raised.
\<close>

fun int_keys :: "pyval list \<Rightarrow> py_error + (int \<times> pyval) list" where
  "int_keys [] = Inr []"
| "int_keys (x # xs) =
     (case py_int x of
        Inl e \<Rightarrow> Inl e
      | Inr k \<Rightarrow> (case int_keys xs of Inl e \<Rightarrow> Inl e | Inr ks \<Rightarrow> Inr ((k, x) # ks)))"

fun is_str :: "pyval \<Rightarrow> bool" where
  "is_str (PStr s) = True"
| "is_str _ = False"

fun is_num :: "pyval \<Rightarrow> bool" where
  "is_num (PInt i) = True"
| "is_num (PFloat r) = True"
| "is_num _ = False"

fun str_of :: "pyval \<Rightarrow> string" where
  "str_of (PStr s) = s"
| "str_of _ = []"

fun num_of :: "pyval \<Rightarrow> real" where
  "num_of (PInt i) = of_int i"
| "num_of (PFloat r) = r"
| "num_of _ = 0"

text \<open>
  \<^verbatim>\<open>sorted(xs)\<close> with no key. Strings compare with strings, by code points, and numbers
  with numbers; \<^verbatim>\<open><\<close> between a string and a number, or with \<^verbatim>\<open>None\<close>, raises
  \<^verbatim>\<open>TypeError\<close>. A sort of two or more elements compares every element with another one,
  along a chain that links them all, so it meets such a pair whenever the list has one.
\<close>

definition py_sorted_plain :: "pyval list \<Rightarrow> py_error + pyval list" where
  "py_sorted_plain xs =
     (if length xs \<le> 1 then Inr xs
      else if list_all is_str xs then Inr (py_sorted (\<lambda>a b. str_of a < str_of b) xs)
      else if list_all is_num xs then Inr (py_sorted (\<lambda>a b. num_of a < num_of b) xs)
      else Inl TypeError)"

section \<open>The aggregator: \<^verbatim>\<open>aggregate_data\<close>\<close>

text \<open>
  The configuration, with the defaults of \<^verbatim>\<open>config.get\<close> filled in by whoever builds the
  record: \<^verbatim>\<open>''\<close> for the three field names, \<^verbatim>\<open>False\<close> for the two flags, 0 for
  \<^verbatim>\<open>minSeriesTotal\<close>, 10 for \<^verbatim>\<open>maxSeries\<close> and \<^verbatim>\<open>None\<close> for \<^verbatim>\<open>filter\<close>.
\<close>

record config =
  groupBy :: string
  seriesBy :: string
  valueField :: string
  extractYear :: bool
  minSeriesTotal :: real
  maxSeries :: int
  topSeriesPerGroup :: bool
  filter_cfg :: "filter_config option"

text \<open>The four accumulators of the loop, and the counter of rows with no year.\<close>

record agg_state =
  totals :: "(pyfloat pydict) pydict"
  series_totals :: "pyfloat pydict"
  groups_set :: "pyval list"
  series_set :: "pyval list"
  skipped_rows :: nat

definition init_state :: agg_state where
  "init_state = \<lparr>totals = [], series_totals = [], groups_set = [], series_set = [], skipped_rows = 0\<rparr>"

text \<open>
  The last four statements of the loop body, the same in both files:
  \<^verbatim>\<open>
        groups_set.add(group_value)
        series_set.add(series_value)
        totals[group_value][series_value] += value
        series_totals[series_value] += value
  \<close>
\<close>

definition accumulate :: "agg_state \<Rightarrow> pyval \<Rightarrow> pyval \<Rightarrow> pyfloat \<Rightarrow> agg_state" where
  "accumulate st g s v =
     st\<lparr>groups_set := set_add g (groups_set st),
        series_set := set_add s (series_set st),
        totals := dict_upd (dict_upd (\<lambda>t. fadd t v) (Fin 0) s) [] g (totals st),
        series_totals := dict_upd (\<lambda>t. fadd t v) (Fin 0) s (series_totals st)\<rparr>"

text \<open>
  The loop body of \<^verbatim>\<open>src/build_dashboards.py\<close>:
  \<^verbatim>\<open>
    for row in rows:
        if not row_matches_filter(row, filter_config):
            continue
        group_value = row.get(group_by, '')
        if extract_year_flag:
            group_value = extract_year(group_value)
            if group_value is None:
                skipped_rows += 1
                continue
        series_value = row.get(series_by, 'Total') if series_by else 'Total'
        value = to_number(row.get(value_field, 0))
        if not group_value:
            continue
        ...
  \<close>
\<close>

definition series_value_of :: "config \<Rightarrow> row \<Rightarrow> pyval" where
  "series_value_of cfg r =
     (if seriesBy cfg \<noteq> [] then row_get r (seriesBy cfg) (PStr ''Total'') else PStr ''Total'')"

definition value_of :: "config \<Rightarrow> row \<Rightarrow> pyfloat" where
  "value_of cfg r = to_number (row_get r (valueField cfg) (PInt 0))"

definition agg_step :: "runtime \<Rightarrow> config \<Rightarrow> agg_state \<Rightarrow> row \<Rightarrow> agg_state" where
  "agg_step rt cfg st r =
     (if \<not> row_matches_filter rt r (filter_cfg cfg) then st
      else
        (let group_value = row_get r (groupBy cfg) (PStr [])
         in if extractYear cfg then
              (case extract_year rt group_value of
                 None \<Rightarrow> st\<lparr>skipped_rows := skipped_rows st + 1\<rparr>
               | Some y \<Rightarrow>
                   (let series_value = series_value_of cfg r; v = value_of cfg r
                    in if \<not> py_truthy (PStr y) then st else accumulate st (PStr y) series_value v))
            else
              (let series_value = series_value_of cfg r; v = value_of cfg r
               in if \<not> py_truthy group_value then st
                  else accumulate st group_value series_value v)))"

definition agg_loop :: "runtime \<Rightarrow> config \<Rightarrow> row list \<Rightarrow> agg_state" where
  "agg_loop rt cfg rows = foldl (agg_step rt cfg) init_state rows"

text \<open>
  The choice of the series:
  \<^verbatim>\<open>
    if top_series_per_group and max_series:
        top_series = set()
        for group_map in totals.values():
            ranked = sorted(group_map.items(), key=lambda x: -x[1])[:max_series]
            for series_key, _ in ranked:
                top_series.add(series_key)
        series_list = sorted(top_series, key=lambda s: -series_totals[s])
    else:
        series_list = [s for s in series_set if series_totals[s] >= min_series_total]
        series_list = sorted(series_list, key=lambda s: -series_totals[s])[:max_series]
  \<close>
\<close>

definition by_neg :: "('a \<Rightarrow> pyfloat) \<Rightarrow> 'a \<Rightarrow> 'a \<Rightarrow> bool" where
  "by_neg key a b = flt (fneg (key a)) (fneg (key b))"

definition ranked :: "int \<Rightarrow> pyfloat pydict \<Rightarrow> (pyval \<times> pyfloat) list" where
  "ranked max_series group_map = py_slice_to max_series (py_sorted (by_neg snd) group_map)"

definition top_series_of :: "int \<Rightarrow> (pyfloat pydict) pydict \<Rightarrow> pyval list" where
  "top_series_of max_series tot =
     foldl (\<lambda>top group_map. foldl (\<lambda>t kv. set_add (fst kv) t) top (ranked max_series group_map))
       [] (map snd tot)"

definition select_series :: "runtime \<Rightarrow> config \<Rightarrow> agg_state \<Rightarrow> pyval list" where
  "select_series rt cfg st =
     (let total = (\<lambda>s. dict_get_or (series_totals st) s (Fin 0))
      in if topSeriesPerGroup cfg \<and> maxSeries cfg \<noteq> 0 then
           py_sorted (by_neg total) (set_iter rt (top_series_of (maxSeries cfg) (totals st)))
         else
           py_slice_to (maxSeries cfg)
             (py_sorted (by_neg total)
                (filter (\<lambda>s. fge (total s) (Fin (minSeriesTotal cfg))) (set_iter rt (series_set st)))))"

text \<open>
  The order of the groups:
  \<^verbatim>\<open>
    try:
        groups = sorted(groups_set, key=lambda x: int(x))
    except ValueError:
        groups = sorted(groups_set)
  \<close>
\<close>

definition sort_groups :: "runtime \<Rightarrow> pyval list \<Rightarrow> py_error + pyval list" where
  "sort_groups rt gs =
     (case int_keys (set_iter rt gs) of
        Inr ks \<Rightarrow> Inr (map snd (py_sorted (\<lambda>a b. fst a < fst b) ks))
      | Inl ValueError \<Rightarrow> py_sorted_plain (set_iter rt gs)
      | Inl e \<Rightarrow> Inl e)"

text \<open>
  The result:
  \<^verbatim>\<open>
    data = []
    for group in groups:
        series_data = {s: totals[group].get(s, 0) for s in series_list}
        data.append({'group': group, 'series': series_data})
    return {'groups': groups, 'series': series_list, 'data': data}
  \<close>
  The \<^verbatim>\<open>0\<close> a series gets in a group that has no row of it is the float zero (\<^verbatim>\<open>0 == 0.0\<close>).
\<close>

record data_entry =
  group :: pyval
  series_data :: "pyfloat pydict"

record agg_result =
  groups :: "pyval list"
  series :: "pyval list"
  data :: "data_entry list"

definition build_data :: "(pyfloat pydict) pydict \<Rightarrow> pyval list \<Rightarrow> pyval list \<Rightarrow> data_entry list" where
  "build_data tot gs series_list =
     map (\<lambda>g. \<lparr>group = g,
               series_data = map (\<lambda>s. (s, dict_get_or (dict_get_or tot g []) s (Fin 0))) series_list\<rparr>) gs"

definition finish :: "runtime \<Rightarrow> config \<Rightarrow> agg_state \<Rightarrow> py_error + agg_result" where
  "finish rt cfg st =
     (let series_list = select_series rt cfg st
      in case sort_groups rt (groups_set st) of
           Inl e \<Rightarrow> Inl e
         | Inr gs \<Rightarrow> Inr \<lparr>groups = gs, series = series_list, data = build_data (totals st) gs series_list\<rparr>)"

definition aggregate_data :: "runtime \<Rightarrow> row list \<Rightarrow> config \<Rightarrow> py_error + agg_result" where
  "aggregate_data rt rows cfg = finish rt cfg (agg_loop rt cfg rows)"

text \<open>
  \<^verbatim>\<open>aggregate_data(rows, config, mapping)\<close> of \<^verbatim>\<open>update_data.py\<close>. Its loop filters
  with \<^verbatim>\<open>row_matches_mapping\<close>, which may raise, and never drops a row for its year:
  \<^verbatim>\<open>
    for row in rows:
        if not row_matches_mapping(row, mapping):
            continue
        group_value = row.get(group_by, '')
        if extract_year_flag:
            group_value = extract_year(group_value)
        series_value = row.get(series_by, 'Total') if series_by else 'Total'
        value = to_number(row.get(value_field, 0))
        if not group_value:
            continue
        ...
  \<close>
  What follows the loop (lines 171 to 201) is, statement for statement, what follows it in
  \<^verbatim>\<open>src/build_dashboards.py\<close> (lines 123 to 153).
\<close>

definition agg_step_upd ::
  "runtime \<Rightarrow> config \<Rightarrow> filter_config option \<Rightarrow> agg_state \<Rightarrow> row \<Rightarrow> py_error + agg_state" where
  "agg_step_upd rt cfg mapping st r =
     (case row_matches_mapping r mapping of
        Inl e \<Rightarrow> Inl e
      | Inr ok \<Rightarrow>
          if \<not> ok then Inr st
          else
            (let group_value0 = row_get r (groupBy cfg) (PStr []);
                 group_value = (if extractYear cfg then PStr (extract_year_upd rt group_value0)
                                else group_value0);
                 series_value = (if seriesBy cfg \<noteq> [] then row_get r (seriesBy cfg) (PStr ''Total'')
                                 else PStr ''Total'');
                 v = to_number (row_get r (valueField cfg) (PInt 0))
             in if \<not> py_truthy group_value then Inr st
                else Inr (accumulate st group_value series_value v)))"

fun agg_loop_upd ::
  "runtime \<Rightarrow> config \<Rightarrow> filter_config option \<Rightarrow> agg_state \<Rightarrow> row list \<Rightarrow> py_error + agg_state" where
  "agg_loop_upd rt cfg mapping st [] = Inr st"
| "agg_loop_upd rt cfg mapping st (r # rs) =
     (case agg_step_upd rt cfg mapping st r of
        Inl e \<Rightarrow> Inl e
      | Inr st' \<Rightarrow> agg_loop_upd rt cfg mapping st' rs)"

definition aggregate_data_upd ::
  "runtime \<Rightarrow> row list \<Rightarrow> config \<Rightarrow> filter_config option \<Rightarrow> py_error + agg_result" where
  "aggregate_data_upd rt rows cfg mapping =
     (case agg_loop_upd rt cfg mapping init_state rows of
        Inl e \<Rightarrow> Inl e
      | Inr st \<Rightarrow>
          (let total = (\<lambda>s. dict_get_or (series_totals st) s (Fin 0));
               max_series = maxSeries cfg;
               series_list =
                 (if topSeriesPerGroup cfg \<and> max_series \<noteq> 0 then
                    py_sorted (\<lambda>a b. flt (fneg (total a)) (fneg (total b)))
                      (set_iter rt
                         (foldl (\<lambda>top group_map.
                                   foldl (\<lambda>t kv. set_add (fst kv) t) top
                                     (py_slice_to max_series
                                        (py_sorted (\<lambda>a b. flt (fneg (snd a)) (fneg (snd b))) group_map)))
                            [] (map snd (totals st))))
                  else
                    py_slice_to max_series
                      (py_sorted (\<lambda>a b. flt (fneg (total a)) (fneg (total b)))
                         (filter (\<lambda>s. fge (total s) (Fin (minSeriesTotal cfg)))
                            (set_iter rt (series_set st)))))
           in case (case int_keys (set_iter rt (groups_set st)) of
                      Inr ks \<Rightarrow> Inr (map snd (py_sorted (\<lambda>a b. fst a < fst b) ks))
                    | Inl ValueError \<Rightarrow> py_sorted_plain (set_iter rt (groups_set st))
                    | Inl e \<Rightarrow> Inl e) of
                Inl e \<Rightarrow> Inl e
              | Inr gs \<Rightarrow>
                  Inr \<lparr>groups = gs, series = series_list,
                       data = map (\<lambda>g. \<lparr>group = g,
                                        series_data =
                                          map (\<lambda>s. (s, dict_get_or (dict_get_or (totals st) g []) s (Fin 0)))
                                            series_list\<rparr>) gs\<rparr>))"

section \<open>Notions used in the statements\<close>



text \<open>
  What Python promises of a set: iterating it gives each of its elements once, in some
  order.
\<close>

definition iter_permutes :: "runtime \<Rightarrow> bool" where
  "iter_permutes rt = (\<forall>xs. mset (set_iter rt xs) = mset xs)"

text \<open>
  The group key of a row: the value of the \<^verbatim>\<open>groupBy\<close> field, or the year extracted from
  it; \<open>None\<close> when the row is dropped because it has no year. The row's contribution is
  what it adds to the totals: its group key, series key and normalised value, if it passes
  the filter, is not dropped and has a group key that is not empty.
\<close>

definition group_key :: "runtime \<Rightarrow> config \<Rightarrow> row \<Rightarrow> pyval option" where
  "group_key rt cfg r =
     (if extractYear cfg then map_option PStr (extract_year rt (row_get r (groupBy cfg) (PStr [])))
      else Some (row_get r (groupBy cfg) (PStr [])))"

definition contribution :: "runtime \<Rightarrow> config \<Rightarrow> row \<Rightarrow> (pyval \<times> pyval \<times> pyfloat) option" where
  "contribution rt cfg r =
     (if row_matches_filter rt r (filter_cfg cfg) then
        (case group_key rt cfg r of
           None \<Rightarrow> None
         | Some g \<Rightarrow> if py_truthy g then Some (g, series_value_of cfg r, value_of cfg r) else None)
      else None)"

text \<open>The accumulating statements of the loop, run over a list of contributions.\<close>

definition acc_all :: "agg_state \<Rightarrow> (pyval \<times> pyval \<times> pyfloat) list \<Rightarrow> agg_state" where
  "acc_all st cs = foldl (\<lambda>a c. accumulate a (fst c) (fst (snd c)) (snd (snd c))) st cs"

text \<open>The sum kept for a group and a series: \<^verbatim>\<open>totals[g].get(s, 0)\<close>.\<close>

definition cell :: "agg_state \<Rightarrow> pyval \<Rightarrow> pyval \<Rightarrow> pyfloat" where
  "cell st g s = dict_get_or (dict_get_or (totals st) g []) s (Fin 0)"




text \<open>
  The group keys observed: those of the contributing rows, each once, in the order in which
  they are first seen.
\<close>

definition observed_groups :: "runtime \<Rightarrow> config \<Rightarrow> row list \<Rightarrow> pyval list" where
  "observed_groups rt cfg rows =
     foldl (\<lambda>acc c. set_add (fst c) acc) [] (List.map_filter (contribution rt cfg) rows)"

section \<open>Sample inputs\<close>

text \<open>
  A runtime whose sets iterate in the order of insertion. The samples hold no float, so
  its text for one is never read.
\<close>

definition sample_rt :: runtime where
  "sample_rt = \<lparr>set_iter = (\<lambda>xs. xs), float_repr = (\<lambda>r. ''0.0'')\<rparr>"

definition health_row :: row where
  "health_row = [''dept'' \<mapsto> PStr ''Health'', ''year'' \<mapsto> PStr ''202301'', ''amt'' \<mapsto> PStr ''$100'']"

text \<open>
  A configuration that groups by the field \<^verbatim>\<open>g\<close> and sums the field \<^verbatim>\<open>v\<close> into the
  one series \<^verbatim>\<open>Total\<close>, and rows whose group keys are a string and an int, two numerals,
  and two numerals and a word.
\<close>

definition g_cfg :: config where
  "g_cfg = \<lparr>groupBy = ''g'', seriesBy = [], valueField = ''v'', extractYear = False,
            minSeriesTotal = 0, maxSeries = 10, topSeriesPerGroup = False, filter_cfg = None\<rparr>"

definition mixed_rows :: "row list" where
  "mixed_rows = [[''g'' \<mapsto> PStr ''abc''], [''g'' \<mapsto> PInt 5]]"

definition num_rows :: "row list" where
  "num_rows = [[''g'' \<mapsto> PStr ''10'', ''v'' \<mapsto> PInt 1], [''g'' \<mapsto> PStr ''9'', ''v'' \<mapsto> PStr ''2.5'']]"

definition lex_rows :: "row list" where
  "lex_rows = [[''g'' \<mapsto> PStr ''10''], [''g'' \<mapsto> PStr ''9''], [''g'' \<mapsto> PStr ''x'']]"

text \<open>
  The end-to-end scenario of the specification, a row that has a group and a value and
  nothing else, and the text \<^verbatim>\<open>1\t2\<close>, a tab between two digits.
\<close>

definition spec_cfg :: config where
  "spec_cfg = \<lparr>groupBy = ''year'', seriesBy = ''dept'', valueField = ''amt'', extractYear = True,
               minSeriesTotal = 0, maxSeries = 10, topSeriesPerGroup = False, filter_cfg = None\<rparr>"

definition spec_rows :: "row list" where
  "spec_rows =
     [[''dept'' \<mapsto> PStr ''Health'', ''year'' \<mapsto> PStr ''202301'', ''amt'' \<mapsto> PStr ''$100''],
      [''dept'' \<mapsto> PStr ''Health'', ''year'' \<mapsto> PStr ''202301'', ''amt'' \<mapsto> PStr ''$50''],
      [''dept'' \<mapsto> PStr ''Defence'', ''year'' \<mapsto> PStr ''202201'', ''amt'' \<mapsto> PStr ''$10'']]"

definition spec_result :: agg_result where
  "spec_result =
     \<lparr>groups = [PStr ''2022'', PStr ''2023''], series = [PStr ''Health'', PStr ''Defence''],
      data = [\<lparr>group = PStr ''2022'', series_data = [(PStr ''Health'', Fin 0), (PStr ''Defence'', Fin 10)]\<rparr>,
              \<lparr>group = PStr ''2023'', series_data = [(PStr ''Health'', Fin 150), (PStr ''Defence'', Fin 0)]\<rparr>]\<rparr>"

definition bare_row :: row where
  "bare_row = [''g'' \<mapsto> PStr ''A'', ''v'' \<mapsto> PInt 5]"


section \<open>Properties of the year extractor\<close>
























section \<open>Properties of the row filter\<close>

text \<open>
  Claim C10. A filter whose \<^verbatim>\<open>contains\<close> list (\<^verbatim>\<open>includeContains\<close> in a mapping) is
  present and empty rejects every row, whatever the row holds in the field and whatever
  the \<^verbatim>\<open>include\<close> list says: \<^verbatim>\<open>row_matches_filter\<close> and \<^verbatim>\<open>row_matches_mapping\<close> both
  return \<^verbatim>\<open>False\<close>.
\<close>

theorem empty_contains_rejects:
  "f_contains f = Some [] \<Longrightarrow>
     row_matches_filter rt r (Some f) = False \<and> row_matches_mapping r (Some f) = Inr False"
  by (simp add: row_matches_filter_def row_matches_mapping_def Let_def split: option.split)

theorem empty_contains_rejects_witness:
  "row_matches_filter sample_rt health_row
     (Some \<lparr>f_field = ''dept'', f_include = Some [PStr ''Health''], f_contains = Some []\<rparr>) = False
   \<and> row_matches_mapping health_row
     (Some \<lparr>f_field = ''dept'', f_include = Some [PStr ''Health''], f_contains = Some []\<rparr>) = Inr False"
  using empty_contains_rejects
    [of "\<lparr>f_field = ''dept'', f_include = Some [PStr ''Health''], f_contains = Some []\<rparr>"
        sample_rt health_row]
  by simp

section \<open>Properties of equality, sorting, slices and dicts\<close>

lemma py_eq_refl [simp]: "py_eq x x"
  by (cases x) auto

lemma py_eq_sym: "py_eq x y \<Longrightarrow> py_eq y x"
  by (cases x; cases y) auto

lemma py_eq_trans: "py_eq x y \<Longrightarrow> py_eq y z \<Longrightarrow> py_eq x z"
  by (cases x; cases y; cases z) auto

lemma py_eq_truthy: "py_eq x y \<Longrightarrow> py_truthy x = py_truthy y"
  by (cases x; cases y) auto

lemma mset_insert_by: "mset (insert_by lt x xs) = add_mset x (mset xs)"
  by (induction xs) auto

lemma mset_py_sorted: "mset (py_sorted lt xs) = mset xs"
  unfolding py_sorted_def by (induction xs) (auto simp: mset_insert_by)

lemma length_py_sorted: "length (py_sorted lt xs) = length xs"
  using mset_py_sorted [of lt xs] by (metis size_mset)




lemma length_slice_nonneg: "0 \<le> n \<Longrightarrow> int (length (py_slice_to n xs)) \<le> n"
  by (simp add: py_slice_to_def)

lemma slice_zero [simp]: "py_slice_to 0 xs = []"
  by (simp add: py_slice_to_def)

lemma set_slice: "set (py_slice_to n xs) \<subseteq> set xs"
  by (auto simp: py_slice_to_def dest: in_set_takeD)

lemma length_slice_neg: "n < 0 \<Longrightarrow> length (py_slice_to n xs) = length xs - nat (- n)"
  by (simp add: py_slice_to_def)

lemma dict_get_upd:
  "dict_get (dict_upd f d k m) k' =
     (if py_eq k k' then Some (f (dict_get_or m k d)) else dict_get m k')"
proof (induction m)
  case Nil
  then show ?case by (simp add: dict_get_or_def)
next
  case (Cons kv m)
  obtain k0 v0 where kv: "kv = (k0, v0)" by (cases kv)
  show ?case
  proof (cases "py_eq k0 k")
    case True
    then have "py_eq k k' \<longleftrightarrow> py_eq k0 k'"
      by (meson py_eq_sym py_eq_trans)
    then show ?thesis using True by (simp add: kv dict_get_or_def)
  next
    case False
    have "py_eq k0 k' \<Longrightarrow> \<not> py_eq k k'"
      using False by (meson py_eq_sym py_eq_trans)
    then show ?thesis using False Cons.IH by (auto simp add: kv dict_get_or_def)
  qed
qed

lemma dict_get_or_upd:
  "dict_get_or (dict_upd f d k m) k' d' =
     (if py_eq k k' then f (dict_get_or m k d) else dict_get_or m k' d')"
  by (simp add: dict_get_or_def [of "dict_upd f d k m"] dict_get_upd) (simp add: dict_get_or_def)

lemma keys_dict_upd: "map fst (dict_upd f d k m) = set_add k (map fst m)"
  by (induction m) (auto simp: set_add_def)

lemma set_add_set: "set (set_add x xs) = insert x (set xs) \<or> set (set_add x xs) = set xs"
  by (auto simp: set_add_def)

lemma set_set_add: "set (set_add x xs) \<subseteq> insert x (set xs)"
  by (auto simp: set_add_def)

lemma set_add_mono: "set xs \<subseteq> set (set_add x xs)"
  by (auto simp: set_add_def)

lemma length_set_add: "length (set_add x xs) \<le> Suc (length xs)"
  by (auto simp: set_add_def)

section \<open>The loop as a list of contributions\<close>

lemma acc_all_Nil [simp]: "acc_all st [] = st"
  by (simp add: acc_all_def)

lemma acc_all_Cons [simp]:
  "acc_all st (c # cs) = acc_all (accumulate st (fst c) (fst (snd c)) (snd (snd c))) cs"
  by (simp add: acc_all_def)

lemma accumulate_skipped:
  "accumulate (st\<lparr>skipped_rows := n\<rparr>) g s v = (accumulate st g s v)\<lparr>skipped_rows := n\<rparr>"
  by (simp add: accumulate_def)

lemma acc_all_skipped:
  "acc_all (st\<lparr>skipped_rows := n\<rparr>) cs = (acc_all st cs)\<lparr>skipped_rows := n\<rparr>"
  by (induction cs arbitrary: st) (simp_all add: accumulate_skipped)

lemma agg_step_contribution:
  "\<exists>n. agg_step rt cfg st r =
     (case contribution rt cfg r of
        None \<Rightarrow> st
      | Some c \<Rightarrow> accumulate st (fst c) (fst (snd c)) (snd (snd c)))\<lparr>skipped_rows := n\<rparr>"
proof (cases "extract_year rt (row_get r (groupBy cfg) (PStr []))")
  case None
  show ?thesis
    by (rule exI [of _ "skipped_rows (agg_step rt cfg st r)"])
       (simp add: agg_step_def contribution_def group_key_def None Let_def accumulate_def)
next
  case (Some y)
  show ?thesis
    by (rule exI [of _ "skipped_rows (agg_step rt cfg st r)"])
       (simp add: agg_step_def contribution_def group_key_def Some Let_def accumulate_def)
qed

lemma agg_fold_contributions:
  "\<exists>n. foldl (agg_step rt cfg) st rows
        = (acc_all st (List.map_filter (contribution rt cfg) rows))\<lparr>skipped_rows := n\<rparr>"
proof (induction rows arbitrary: st)
  case Nil
  show ?case by (rule exI [of _ "skipped_rows st"]) simp
next
  case (Cons r rows)
  obtain n where n: "agg_step rt cfg st r =
     (case contribution rt cfg r of
        None \<Rightarrow> st
      | Some c \<Rightarrow> accumulate st (fst c) (fst (snd c)) (snd (snd c)))\<lparr>skipped_rows := n\<rparr>"
    using agg_step_contribution by blast
  let ?st' = "(case contribution rt cfg r of
        None \<Rightarrow> st
      | Some c \<Rightarrow> accumulate st (fst c) (fst (snd c)) (snd (snd c)))"
  obtain m where m: "foldl (agg_step rt cfg) (?st'\<lparr>skipped_rows := n\<rparr>) rows
        = (acc_all (?st'\<lparr>skipped_rows := n\<rparr>) (List.map_filter (contribution rt cfg) rows))\<lparr>skipped_rows := m\<rparr>"
    using Cons.IH by blast
  have "acc_all ?st' (List.map_filter (contribution rt cfg) rows)
        = acc_all st (List.map_filter (contribution rt cfg) (r # rows))"
    by (cases "contribution rt cfg r") (simp_all add: List.map_filter_simps)
  then show ?case
    using n m by (auto simp: acc_all_skipped intro!: exI [of _ m])
qed

lemma agg_loop_contributions:
  "\<exists>n. agg_loop rt cfg rows
        = (acc_all init_state (List.map_filter (contribution rt cfg) rows))\<lparr>skipped_rows := n\<rparr>"
  unfolding agg_loop_def by (rule agg_fold_contributions)

lemma select_series_skipped:
  "select_series rt cfg (st\<lparr>skipped_rows := n\<rparr>) = select_series rt cfg st"
  by (simp add: select_series_def Let_def)

lemma finish_skipped: "finish rt cfg (st\<lparr>skipped_rows := n\<rparr>) = finish rt cfg st"
  by (simp add: finish_def Let_def select_series_skipped split: sum.split)

lemma aggregate_data_contributions:
  "aggregate_data rt rows cfg
   = finish rt cfg (acc_all init_state (List.map_filter (contribution rt cfg) rows))"
  unfolding aggregate_data_def
  using agg_loop_contributions [of rt cfg rows] by (auto simp: finish_skipped)

lemma dict_get_cong: "py_eq k k' \<Longrightarrow> dict_get m k = dict_get m k'"
proof (induction m)
  case Nil
  then show ?case by simp
next
  case (Cons kv m)
  obtain k0 v0 where kv: "kv = (k0, v0)" by (cases kv)
  have "py_eq k0 k \<longleftrightarrow> py_eq k0 k'"
    using Cons.prems by (meson py_eq_sym py_eq_trans)
  then show ?case using Cons by (simp add: kv)
qed

lemma dict_get_or_cong: "py_eq k k' \<Longrightarrow> dict_get_or m k d = dict_get_or m k' d"
  by (simp add: dict_get_or_def dict_get_cong [of k k'])

lemma cell_accumulate:
  "cell (accumulate st g' s' v) g s =
     (if py_eq g' g \<and> py_eq s' s then fadd (cell st g s) v else cell st g s)"
proof (cases "py_eq g' g")
  case True
  note g = dict_get_or_cong [OF True, of "totals st" "[]"]
  show ?thesis
  proof (cases "py_eq s' s")
    case True
    note s = dict_get_or_cong [OF True, of "dict_get_or (totals st) g []" "Fin 0"]
    show ?thesis
      using \<open>py_eq g' g\<close> True by (simp add: cell_def accumulate_def dict_get_or_upd g s)
  next
    case False
    then show ?thesis
      using \<open>py_eq g' g\<close> by (simp add: cell_def accumulate_def dict_get_or_upd g)
  qed
next
  case False
  then show ?thesis by (simp add: cell_def accumulate_def dict_get_or_upd)
qed

lemma cell_acc_all:
  "cell (acc_all st cs) g s =
     foldl fadd (cell st g s)
       (map (\<lambda>c. snd (snd c)) (filter (\<lambda>c. py_eq (fst c) g \<and> py_eq (fst (snd c)) s) cs))"
  by (induction cs arbitrary: st) (simp_all add: cell_accumulate)

lemma cell_init: "cell init_state g s = Fin 0"
  by (simp add: cell_def init_state_def dict_get_or_def)

lemma groups_accumulate: "groups_set (accumulate st g s v) = set_add g (groups_set st)"
  by (simp add: accumulate_def)

lemma groups_acc_all:
  "groups_set (acc_all st cs) = foldl (\<lambda>acc c. set_add (fst c) acc) (groups_set st) cs"
  by (induction cs arbitrary: st) (simp_all add: groups_accumulate)

lemma groups_observed:
  "groups_set (acc_all init_state (List.map_filter (contribution rt cfg) rows))
   = observed_groups rt cfg rows"
  by (simp add: groups_acc_all observed_groups_def init_state_def)

lemma totals_keys_accumulate:
  "map fst (totals st) = groups_set st \<Longrightarrow>
   map fst (totals (accumulate st g s v)) = groups_set (accumulate st g s v)"
  by (simp add: accumulate_def keys_dict_upd)

lemma totals_keys_acc_all:
  "map fst (totals st) = groups_set st \<Longrightarrow>
   map fst (totals (acc_all st cs)) = groups_set (acc_all st cs)"
  by (induction cs arbitrary: st) (simp_all add: totals_keys_accumulate)

lemma contribution_truthy: "contribution rt cfg r = Some c \<Longrightarrow> py_truthy (fst c)"
  by (auto simp: contribution_def split: if_splits option.splits)

lemma set_fold_set_add:
  "set (foldl (\<lambda>acc c. set_add (f c) acc) xs cs) \<subseteq> set xs \<union> f ` set cs"
proof (induction cs arbitrary: xs)
  case Nil
  then show ?case by simp
next
  case (Cons c cs)
  show ?case
    using Cons.IH [of "set_add (f c) xs"] set_set_add [of "f c" xs] by auto
qed

lemma observed_truthy: "g \<in> set (observed_groups rt cfg rows) \<Longrightarrow> py_truthy g"
proof -
  assume "g \<in> set (observed_groups rt cfg rows)"
  then have "g \<in> fst ` set (List.map_filter (contribution rt cfg) rows)"
    unfolding observed_groups_def
    using set_fold_set_add [of fst "[]" "List.map_filter (contribution rt cfg) rows"] by auto
  then obtain c where "c \<in> set (List.map_filter (contribution rt cfg) rows)" "g = fst c" by auto
  then obtain r where "contribution rt cfg r = Some c"
    by (auto simp: List.map_filter_def)
  then show ?thesis
    using contribution_truthy \<open>g = fst c\<close> by blast
qed

section \<open>Properties of the order of the groups\<close>

lemma int_keys_Inr:
  "int_keys xs = Inr ks \<Longrightarrow> map snd ks = xs \<and> (\<forall>p \<in> set ks. py_int (snd p) = Inr (fst p))"
proof (induction xs arbitrary: ks)
  case Nil
  then show ?case by simp
next
  case (Cons x xs)
  then show ?case
    by (auto split: sum.splits)
qed


lemma int_keys_Inl:
  "int_keys xs = Inl e \<Longrightarrow> \<exists>x \<in> set xs. py_int x = Inl e"
proof (induction xs)
  case Nil
  then show ?case by simp
next
  case (Cons x xs)
  then show ?case
    by (auto split: sum.splits)
qed



lemma py_int_error: "py_int x = Inl e \<Longrightarrow> e = ValueError \<or> e = TypeError"
  by (cases x) (auto split: option.splits)


lemma py_sorted_plain_Inl: "py_sorted_plain xs = Inl e \<Longrightarrow> e = TypeError"
  by (auto simp: py_sorted_plain_def split: if_splits)

lemma py_sorted_plain_mset: "py_sorted_plain xs = Inr ys \<Longrightarrow> mset ys = mset xs"
  by (auto simp: py_sorted_plain_def mset_py_sorted split: if_splits)

lemma sort_groups_Inl: "sort_groups rt gs = Inl e \<Longrightarrow> e = TypeError"
proof -
  assume a: "sort_groups rt gs = Inl e"
  show ?thesis
  proof (cases "int_keys (set_iter rt gs)")
    case (Inr ks)
    then show ?thesis using a by (simp add: sort_groups_def)
  next
    case (Inl e')
    then obtain x where "py_int x = Inl e'"
      using int_keys_Inl by blast
    then have "e' = ValueError \<or> e' = TypeError" by (rule py_int_error)
    then show ?thesis
      using a Inl py_sorted_plain_Inl [of "set_iter rt gs" e]
      by (auto simp add: sort_groups_def)
  qed
qed

lemma sort_groups_mset: "sort_groups rt gs = Inr ys \<Longrightarrow> mset ys = mset (set_iter rt gs)"
proof -
  assume a: "sort_groups rt gs = Inr ys"
  show ?thesis
  proof (cases "int_keys (set_iter rt gs)")
    case (Inr ks)
    then have "ys = map snd (py_sorted (\<lambda>a b. fst a < fst b) ks)"
      using a by (simp add: sort_groups_def)
    then have "mset ys = mset (map snd ks)"
      by (simp add: mset_py_sorted)
    then show ?thesis using int_keys_Inr [OF Inr] by simp
  next
    case (Inl e')
    then show ?thesis
      using a py_sorted_plain_mset [of "set_iter rt gs" ys]
      by (cases e') (simp_all add: sort_groups_def)
  qed
qed



lemmas eval_defs = aggregate_data_def finish_def agg_loop_def agg_step_def accumulate_def
  init_state_def row_matches_filter_def row_get_def series_value_of_def value_of_def
  select_series_def sort_groups_def build_data_def py_sorted_plain_def py_sorted_def
  py_slice_to_def by_neg_def set_add_def dict_get_or_def top_series_of_def ranked_def
  int_of_str_def py_strip_def is_space_def take_sign_def digitpart_def is_digit_def
  digits_val_def digit_val_def extract_year_def Let_def sample_rt_def float_of_str_def
  py_remove_def py_lower_def lower_char_def float_number_def exponent_def scale10_def

lemma mset_pair_cases:
  assumes "mset ys = mset [a, b]"
  shows "ys = [a, b] \<or> ys = [b, a]"
proof -
  have "length ys = 2" using assms by (metis length_Cons list.size(3) size_mset numeral_2_eq_2)
  then obtain y1 y2 where ys: "ys = [y1, y2]"
    by (metis (no_types, opaque_lifting) Suc_length_conv length_0_conv numeral_2_eq_2)
  show ?thesis
    using assms unfolding ys by (auto simp: add_eq_conv_ex)
qed

lemma mixed_rows_state:
  "groups_set (agg_loop rt g_cfg mixed_rows) = [PStr ''abc'', PInt 5]"
  by (simp add: agg_loop_def agg_step_def accumulate_def init_state_def row_matches_filter_def
      row_get_def series_value_of_def value_of_def set_add_def Let_def g_cfg_def mixed_rows_def)

text \<open>
  Claim C7 says that \<^verbatim>\<open>aggregate_data\<close> returns a result for every list of rows whose
  values are scalars, mixed string and numeric group keys included. On the two rows
  \<^verbatim>\<open>{'g': 'abc'}\<close> and \<^verbatim>\<open>{'g': 5}\<close> it does not: \<^verbatim>\<open>int('abc')\<close> raises
  \<^verbatim>\<open>ValueError\<close>, the fallback \<^verbatim>\<open>sorted(groups_set)\<close> compares a string with an int,
  and the \<^verbatim>\<open>TypeError\<close> of that comparison leaves the function, in whatever order the
  set is iterated.
\<close>

theorem mixed_group_keys_raise:
  "iter_permutes rt \<Longrightarrow> aggregate_data rt mixed_rows g_cfg = Inl TypeError"
proof -
  assume "iter_permutes rt"
  then have "mset (set_iter rt [PStr ''abc'', PInt 5]) = mset [PStr ''abc'', PInt 5]"
    by (simp add: iter_permutes_def)
  then have "set_iter rt [PStr ''abc'', PInt 5] = [PStr ''abc'', PInt 5]
             \<or> set_iter rt [PStr ''abc'', PInt 5] = [PInt 5, PStr ''abc'']"
    by (rule mset_pair_cases)
  then have "sort_groups rt [PStr ''abc'', PInt 5] = Inl TypeError"
    by (auto simp: sort_groups_def py_sorted_plain_def int_of_str_def py_strip_def is_space_def
        take_sign_def digitpart_def is_digit_def)
  then show ?thesis
    by (simp add: aggregate_data_def finish_def mixed_rows_state)
qed

theorem mixed_group_keys_raise_witness:
  "iter_permutes sample_rt \<and> aggregate_data sample_rt mixed_rows g_cfg = Inl TypeError"
proof -
  have "iter_permutes sample_rt" by (simp add: iter_permutes_def sample_rt_def)
  then show ?thesis using mixed_group_keys_raise [of sample_rt] by simp
qed

lemma finish_Inr:
  assumes "finish rt cfg st = Inr r"
  shows "sort_groups rt (groups_set st) = Inr (groups r)"
    and "series r = select_series rt cfg st"
    and "data r = build_data (totals st) (groups r) (series r)"
  using assms by (auto simp: finish_def Let_def split: sum.splits)



section \<open>Properties of the sums\<close>

lemma sample_permutes: "iter_permutes sample_rt"
  by (simp add: iter_permutes_def sample_rt_def)

lemma spec_scenario: "aggregate_data sample_rt spec_rows spec_cfg = Inr spec_result"
  by (simp add: eval_defs spec_cfg_def spec_rows_def spec_result_def)

lemma contribution_values:
  assumes "py_truthy g"
  shows "map (\<lambda>c. snd (snd c))
           (filter (\<lambda>c. py_eq (fst c) g \<and> py_eq (fst (snd c)) s)
              (List.map_filter (contribution rt cfg) rows))
         = map (value_of cfg)
             (filter (\<lambda>row. row_matches_filter rt row (filter_cfg cfg)
                        \<and> (case group_key rt cfg row of None \<Rightarrow> False | Some k \<Rightarrow> py_eq k g)
                        \<and> py_eq (series_value_of cfg row) s) rows)"
proof (induction rows)
  case Nil
  then show ?case by (simp add: List.map_filter_simps)
next
  case (Cons r rows)
  have t: "py_eq k g \<Longrightarrow> py_truthy k" for k
    using assms py_eq_truthy by blast
  show ?case
    using Cons.IH t
    by (auto simp: List.map_filter_simps contribution_def split: option.splits)
qed

lemma build_data_entry:
  assumes "e \<in> set (build_data tot gs ss)" "(s, v) \<in> set (series_data e)"
  shows "group e \<in> set gs \<and> s \<in> set ss \<and> v = dict_get_or (dict_get_or tot (group e) []) s (Fin 0)"
  using assms by (auto simp: build_data_def)

text \<open>
  Claim C2. In a returned result, the value a data entry holds for a retained series is
  the sum of the normalised values of exactly those rows that pass the filter, are not
  dropped for want of a year, and whose group key equals the entry's group and whose series
  key equals the series. The sum starts at 0.0 and adds the values in the order of the
  rows, as the loop does.
\<close>

theorem sum_conservation:
  assumes "iter_permutes rt" and "aggregate_data rt rows cfg = Inr r"
    and "e \<in> set (data r)" and "(s, v) \<in> set (series_data e)"
  shows "v = foldl fadd (Fin 0)
               (map (value_of cfg)
                  (filter (\<lambda>row. row_matches_filter rt row (filter_cfg cfg)
                             \<and> (case group_key rt cfg row of None \<Rightarrow> False
                                 | Some k \<Rightarrow> py_eq k (group e))
                             \<and> py_eq (series_value_of cfg row) s) rows))"
proof -
  let ?st = "acc_all init_state (List.map_filter (contribution rt cfg) rows)"
  have fin: "finish rt cfg ?st = Inr r"
    using assms(2) by (simp add: aggregate_data_contributions)
  have entry: "group e \<in> set (groups r)" "v = cell ?st (group e) s"
    using build_data_entry [of e "totals ?st" "groups r" "series r" s v] assms(3,4)
      finish_Inr(3) [OF fin] by (simp_all add: cell_def)
  have "sort_groups rt (observed_groups rt cfg rows) = Inr (groups r)"
    using finish_Inr(1) [OF fin] by (simp add: groups_observed)
  then have "mset (groups r) = mset (set_iter rt (observed_groups rt cfg rows))"
    by (rule sort_groups_mset)
  then have "mset (groups r) = mset (observed_groups rt cfg rows)"
    using assms(1) by (simp add: iter_permutes_def)
  then have "group e \<in> set (observed_groups rt cfg rows)"
    using entry(1) by (metis set_mset_mset)
  then have "py_truthy (group e)" by (rule observed_truthy)
  then show ?thesis
    unfolding entry(2) cell_acc_all cell_init by (simp only: contribution_values)
qed

theorem sum_conservation_witness:
  "aggregate_data sample_rt spec_rows spec_cfg = Inr spec_result
   \<and> Fin 150 = foldl fadd (Fin 0)
       (map (value_of spec_cfg)
          (filter (\<lambda>row. row_matches_filter sample_rt row (filter_cfg spec_cfg)
                     \<and> (case group_key sample_rt spec_cfg row of None \<Rightarrow> False
                         | Some k \<Rightarrow>
                             py_eq k (group \<lparr>group = PStr ''2023'',
                                             series_data = [(PStr ''Health'', Fin 150),
                                                            (PStr ''Defence'', Fin 0)]\<rparr>))
                     \<and> py_eq (series_value_of spec_cfg row) (PStr ''Health'')) spec_rows))"
  using sum_conservation [OF sample_permutes spec_scenario,
      of "\<lparr>group = PStr ''2023'', series_data = [(PStr ''Health'', Fin 150), (PStr ''Defence'', Fin 0)]\<rparr>"
         "PStr ''Health''" "Fin 150"]
    spec_scenario
  by (simp add: spec_result_def)

section \<open>Properties of the choice of the series\<close>

lemma length_fold_set_add:
  "length (foldl (\<lambda>t kv. set_add (f kv) t) acc xs) \<le> length acc + length xs"
proof (induction xs arbitrary: acc)
  case Nil
  then show ?case by simp
next
  case (Cons x xs)
  show ?case
    using Cons.IH [of "set_add (f x) acc"] length_set_add [of "f x" acc] by simp
qed

lemma length_ranked: "0 \<le> m \<Longrightarrow> length (ranked m gm) \<le> nat m"
  by (simp add: ranked_def py_slice_to_def)

lemma length_top_fold:
  assumes "0 \<le> m"
  shows "length (foldl (\<lambda>acc gm. foldl (\<lambda>t kv. set_add (fst kv) t) acc (ranked m gm)) top0 gms)
         \<le> length top0 + length gms * nat m"
proof (induction gms arbitrary: top0)
  case Nil
  then show ?case by simp
next
  case (Cons gm gms)
  let ?t = "foldl (\<lambda>t kv. set_add (fst kv) t) top0 (ranked m gm)"
  have "length ?t \<le> length top0 + nat m"
    using length_fold_set_add [of fst top0 "ranked m gm"] length_ranked [OF assms, of gm] by linarith
  then show ?case
    using Cons.IH [of ?t] by simp
qed

lemma length_top_series: "0 \<le> m \<Longrightarrow> length (top_series_of m tot) \<le> length tot * nat m"
  using length_top_fold [of m "[]" "map snd tot"] by (simp add: top_series_of_def)

lemma length_iter: "iter_permutes rt \<Longrightarrow> length (set_iter rt xs) = length xs"
  by (metis iter_permutes_def size_mset)

lemma finish_series_bound:
  assumes perm: "iter_permutes rt" and fin: "finish rt cfg st = Inr r"
    and m: "0 \<le> maxSeries cfg" and keys: "map fst (totals st) = groups_set st"
  shows "(\<not> topSeriesPerGroup cfg \<longrightarrow> int (length (series r)) \<le> maxSeries cfg)
       \<and> (topSeriesPerGroup cfg \<longrightarrow> int (length (series r)) \<le> maxSeries cfg * int (length (groups r)))"
proof -
  have ser: "series r = select_series rt cfg st" by (rule finish_Inr(2) [OF fin])
  have "mset (groups r) = mset (set_iter rt (groups_set st))"
    using finish_Inr(1) [OF fin] by (rule sort_groups_mset)
  then have "length (groups r) = length (set_iter rt (groups_set st))"
    by (metis size_mset)
  then have lg: "length (groups r) = length (totals st)"
    using length_iter [OF perm] keys by (metis length_map)
  show ?thesis
  proof (cases "topSeriesPerGroup cfg \<and> maxSeries cfg \<noteq> 0")
    case True
    then have "length (series r) = length (top_series_of (maxSeries cfg) (totals st))"
      unfolding ser by (simp add: select_series_def length_py_sorted length_iter [OF perm])
    then have "length (series r) \<le> length (groups r) * nat (maxSeries cfg)"
      using length_top_series [OF m, of "totals st"] lg by simp
    then have "int (length (series r)) \<le> int (length (groups r)) * maxSeries cfg"
      using m by (metis int_nat_eq of_nat_le_iff of_nat_mult)
    then show ?thesis using True by (simp add: mult.commute)
  next
    case False
    have "int (length (series r)) \<le> maxSeries cfg"
      unfolding ser select_series_def Let_def if_not_P [OF False]
      by (rule length_slice_nonneg [OF m])
    moreover have "maxSeries cfg = 0" if "topSeriesPerGroup cfg" using False that by simp
    ultimately show ?thesis by auto
  qed
qed

lemma by_neg_eq: "by_neg key = (\<lambda>a b. flt (fneg (key a)) (fneg (key b)))"
  by (rule ext, rule ext) (simp add: by_neg_def)

lemma aggregate_data_upd_finish:
  "aggregate_data_upd rt rows cfg mapping =
     (case agg_loop_upd rt cfg mapping init_state rows of
        Inl e \<Rightarrow> Inl e
      | Inr st \<Rightarrow> finish rt cfg st)"
proof (cases "agg_loop_upd rt cfg mapping init_state rows")
  case (Inl e)
  then show ?thesis by (simp add: aggregate_data_upd_def)
next
  case (Inr st)
  have "aggregate_data_upd rt rows cfg mapping = finish rt cfg st"
    unfolding aggregate_data_upd_def Inr finish_def select_series_def sort_groups_def
      build_data_def top_series_of_def ranked_def by_neg_eq Let_def sum.case
    by (rule refl)
  then show ?thesis by (simp add: Inr)
qed

lemma agg_step_upd_keys:
  assumes "agg_step_upd rt cfg mapping st r = Inr st'" "map fst (totals st) = groups_set st"
  shows "map fst (totals st') = groups_set st'"
  using assms totals_keys_accumulate
  by (auto simp: agg_step_upd_def Let_def split: sum.splits if_splits)

lemma agg_loop_upd_keys:
  assumes "agg_loop_upd rt cfg mapping st rows = Inr st'" "map fst (totals st) = groups_set st"
  shows "map fst (totals st') = groups_set st'"
  using assms
proof (induction rows arbitrary: st)
  case Nil
  then show ?case by simp
next
  case (Cons r rows)
  then obtain st1 where s1: "agg_step_upd rt cfg mapping st r = Inr st1"
    and rest: "agg_loop_upd rt cfg mapping st1 rows = Inr st'"
    by (auto split: sum.splits)
  show ?case
    using Cons.IH [OF rest] agg_step_upd_keys [OF s1 Cons.prems(2)] by simp
qed

lemma init_keys: "map fst (totals init_state) = groups_set init_state"
  by (simp add: init_state_def)

text \<open>
  Claim C1, as amended. For \<^verbatim>\<open>maxSeries\<close> that is not negative, in both files: under
  the global policy the series list of a returned result has at most \<^verbatim>\<open>maxSeries\<close>
  keys; under the per-group policy every group adds at most \<^verbatim>\<open>maxSeries\<close> keys to the
  union, so the list has at most \<^verbatim>\<open>maxSeries\<close> times the number of groups.
\<close>

theorem series_cap:
  assumes "iter_permutes rt" and "0 \<le> maxSeries cfg"
    and "aggregate_data rt rows cfg = Inr r \<or> aggregate_data_upd rt rows cfg mapping = Inr r"
  shows "(\<not> topSeriesPerGroup cfg \<longrightarrow> int (length (series r)) \<le> maxSeries cfg)
       \<and> (topSeriesPerGroup cfg \<longrightarrow> int (length (series r)) \<le> maxSeries cfg * int (length (groups r)))"
  using assms(3)
proof
  assume a: "aggregate_data rt rows cfg = Inr r"
  let ?st = "acc_all init_state (List.map_filter (contribution rt cfg) rows)"
  have "finish rt cfg ?st = Inr r"
    using a by (simp add: aggregate_data_contributions)
  then show ?thesis
    using finish_series_bound [OF assms(1) _ assms(2) totals_keys_acc_all [OF init_keys]] by blast
next
  assume a: "aggregate_data_upd rt rows cfg mapping = Inr r"
  then obtain st where st: "agg_loop_upd rt cfg mapping init_state rows = Inr st"
    and fin: "finish rt cfg st = Inr r"
    by (auto simp: aggregate_data_upd_finish split: sum.splits)
  show ?thesis
    using finish_series_bound [OF assms(1) fin assms(2) agg_loop_upd_keys [OF st init_keys]] .
qed

theorem series_cap_witness:
  "aggregate_data sample_rt spec_rows spec_cfg = Inr spec_result
   \<and> int (length (series spec_result)) \<le> maxSeries spec_cfg
   \<and> aggregate_data sample_rt spec_rows (spec_cfg\<lparr>maxSeries := 1, topSeriesPerGroup := True\<rparr>)
     = Inr spec_result
   \<and> int (length (series spec_result)) \<le> 1 * int (length (groups spec_result))"
proof -
  have e2: "aggregate_data sample_rt spec_rows (spec_cfg\<lparr>maxSeries := 1, topSeriesPerGroup := True\<rparr>)
     = Inr spec_result"
    by (simp add: eval_defs spec_cfg_def spec_rows_def spec_result_def)
  have "int (length (series spec_result)) \<le> maxSeries spec_cfg"
    using series_cap [OF sample_permutes _ disjI1 [OF spec_scenario]] by (simp add: spec_cfg_def)
  moreover have "int (length (series spec_result)) \<le> 1 * int (length (groups spec_result))"
    using series_cap [OF sample_permutes _ disjI1 [OF e2]] by (simp add: spec_cfg_def)
  ultimately show ?thesis using e2 spec_scenario by simp
qed

text \<open>
  The claim as it stands fails: with \<^verbatim>\<open>maxSeries = 1\<close> and the per-group policy the
  scenario keeps the two series, one from each year; with \<^verbatim>\<open>maxSeries = -1\<close> it
  keeps one series, which is more than -1.
\<close>

theorem series_cap_counterexample:
  "aggregate_data sample_rt spec_rows (spec_cfg\<lparr>maxSeries := 1, topSeriesPerGroup := True\<rparr>)
     = Inr spec_result
   \<and> \<not> int (length (series spec_result)) \<le> maxSeries (spec_cfg\<lparr>maxSeries := 1, topSeriesPerGroup := True\<rparr>)
   \<and> aggregate_data sample_rt spec_rows (spec_cfg\<lparr>maxSeries := - 1\<rparr>)
     = Inr \<lparr>groups = [PStr ''2022'', PStr ''2023''], series = [PStr ''Health''],
            data = [\<lparr>group = PStr ''2022'', series_data = [(PStr ''Health'', Fin 0)]\<rparr>,
                    \<lparr>group = PStr ''2023'', series_data = [(PStr ''Health'', Fin 150)]\<rparr>]\<rparr>
   \<and> \<not> int (length [PStr ''Health'']) \<le> maxSeries (spec_cfg\<lparr>maxSeries := - 1\<rparr>)"
  by (simp add: eval_defs spec_cfg_def spec_rows_def spec_result_def)

section \<open>The two variants of the aggregator\<close>

lemma agg_step_upd_plain:
  assumes "\<not> extractYear cfg" "filter_cfg cfg = None"
  shows "agg_step_upd rt cfg None st r = Inr (agg_step rt cfg st r)"
  using assms
  by (simp add: agg_step_upd_def agg_step_def row_matches_mapping_def row_matches_filter_def
      series_value_of_def value_of_def Let_def)

lemma agg_loop_upd_plain:
  assumes "\<not> extractYear cfg" "filter_cfg cfg = None"
  shows "agg_loop_upd rt cfg None st rows = Inr (foldl (agg_step rt cfg) st rows)"
  by (induction rows arbitrary: st) (simp_all add: agg_step_upd_plain [OF assms])

text \<open>
  Claim C9. For a configuration with \<^verbatim>\<open>extractYear\<close> false and no filter, and no
  mapping given, \<^verbatim>\<open>aggregate_data\<close> of \<^verbatim>\<open>update_data.py\<close> and \<^verbatim>\<open>aggregate_data\<close> of
  \<^verbatim>\<open>src/build_dashboards.py\<close> return the same on every list of rows: the same groups,
  series and data, or the same error.
\<close>

theorem aggregate_variants_agree:
  assumes "\<not> extractYear cfg" "filter_cfg cfg = None"
  shows "aggregate_data_upd rt rows cfg None = aggregate_data rt rows cfg"
  by (simp add: aggregate_data_upd_finish agg_loop_upd_plain [OF assms] aggregate_data_def agg_loop_def)

theorem aggregate_variants_agree_witness:
  "\<not> extractYear g_cfg \<and> filter_cfg g_cfg = None
   \<and> aggregate_data_upd sample_rt num_rows g_cfg None = aggregate_data sample_rt num_rows g_cfg"
  using aggregate_variants_agree [of g_cfg sample_rt num_rows] by (simp add: g_cfg_def)

section \<open>A cap of zero, a negative cap\<close>













section \<open>Rows that lack a field\<close>

lemma map_filter_append:
  "List.map_filter f (xs @ ys) = List.map_filter f xs @ List.map_filter f ys"
  by (simp add: List.map_filter_def)

lemma finish_Inl:
  "finish rt cfg st = Inl e \<Longrightarrow> sort_groups rt (groups_set st) = Inl e"
  by (auto simp: finish_def Let_def split: sum.splits)

text \<open>
  Claim C5, as amended. A field that a row lacks raises nothing; the only error that
  leaves \<^verbatim>\<open>aggregate_data\<close> is the \<^verbatim>\<open>TypeError\<close> of the group sort. A row without the
  \<^verbatim>\<open>groupBy\<close> field has an empty group key (or no year) and is left out: it contributes
  nothing, and the result is that of the rows without it. A row without the
  \<^verbatim>\<open>valueField\<close> adds 0.0. A row without the filter's field is tested as if the field
  held the empty string. A row without the \<^verbatim>\<open>seriesBy\<close> field does not get an empty
  series key: its key is \<^verbatim>\<open>'Total'\<close>, and it is counted in that series.
\<close>

theorem missing_fields:
  "(r (groupBy cfg) = None \<longrightarrow>
       contribution rt cfg r = None
       \<and> aggregate_data rt (rows @ r # rows') cfg = aggregate_data rt (rows @ rows') cfg)
   \<and> (seriesBy cfg \<noteq> [] \<longrightarrow> r (seriesBy cfg) = None \<longrightarrow> series_value_of cfg r = PStr ''Total'')
   \<and> (r (valueField cfg) = None \<longrightarrow> value_of cfg r = Fin 0)
   \<and> (r (f_field f) = None \<longrightarrow>
       row_matches_filter rt r (Some f) = row_matches_filter rt (r(f_field f \<mapsto> PStr [])) (Some f))
   \<and> (aggregate_data rt all_rows cfg = Inl e \<longrightarrow>
       e = TypeError \<and> sort_groups rt (observed_groups rt cfg all_rows) = Inl TypeError)"
proof (intro conjI impI)
  assume g: "r (groupBy cfg) = None"
  show c: "contribution rt cfg r = None"
    using g by (simp add: contribution_def group_key_def row_get_def extract_year_def)
  show "aggregate_data rt (rows @ r # rows') cfg = aggregate_data rt (rows @ rows') cfg"
    by (simp add: aggregate_data_contributions map_filter_append List.map_filter_simps c)
next
  assume "seriesBy cfg \<noteq> []" "r (seriesBy cfg) = None"
  then show "series_value_of cfg r = PStr ''Total''"
    by (simp add: series_value_of_def row_get_def)
next
  assume "r (valueField cfg) = None"
  then show "value_of cfg r = Fin 0"
    by (simp add: value_of_def row_get_def)
next
  assume "r (f_field f) = None"
  then show "row_matches_filter rt r (Some f) = row_matches_filter rt (r(f_field f \<mapsto> PStr [])) (Some f)"
    by (simp add: row_matches_filter_def row_get_def)
next
  assume a: "aggregate_data rt all_rows cfg = Inl e"
  then have "sort_groups rt (observed_groups rt cfg all_rows) = Inl e"
    using finish_Inl [of rt cfg _ e] by (simp add: aggregate_data_contributions groups_observed [symmetric])
  then show "e = TypeError" "sort_groups rt (observed_groups rt cfg all_rows) = Inl TypeError"
    using sort_groups_Inl by auto
qed

theorem missing_fields_witness:
  "contribution sample_rt (g_cfg\<lparr>seriesBy := ''dept''\<rparr>) Map.empty = None
   \<and> aggregate_data sample_rt (num_rows @ Map.empty # lex_rows) (g_cfg\<lparr>seriesBy := ''dept''\<rparr>)
     = aggregate_data sample_rt (num_rows @ lex_rows) (g_cfg\<lparr>seriesBy := ''dept''\<rparr>)
   \<and> series_value_of (g_cfg\<lparr>seriesBy := ''dept''\<rparr>) Map.empty = PStr ''Total''
   \<and> value_of (g_cfg\<lparr>seriesBy := ''dept''\<rparr>) Map.empty = Fin 0
   \<and> row_matches_filter sample_rt Map.empty
        (Some \<lparr>f_field = ''dept'', f_include = Some [PStr ''Health''], f_contains = None\<rparr>)
      = row_matches_filter sample_rt (Map.empty(''dept'' \<mapsto> PStr []))
        (Some \<lparr>f_field = ''dept'', f_include = Some [PStr ''Health''], f_contains = None\<rparr>)
   \<and> aggregate_data sample_rt mixed_rows (g_cfg\<lparr>seriesBy := ''dept''\<rparr>) = Inl TypeError
   \<and> sort_groups sample_rt (observed_groups sample_rt (g_cfg\<lparr>seriesBy := ''dept''\<rparr>) mixed_rows)
      = Inl TypeError"
proof -
  have m: "aggregate_data sample_rt mixed_rows (g_cfg\<lparr>seriesBy := ''dept''\<rparr>) = Inl TypeError"
    by (simp add: eval_defs g_cfg_def mixed_rows_def)
  show ?thesis
    using missing_fields [where r = Map.empty and cfg = "g_cfg\<lparr>seriesBy := ''dept''\<rparr>"
        and rt = sample_rt and rows = num_rows and rows' = lex_rows
        and f = "\<lparr>f_field = ''dept'', f_include = Some [PStr ''Health''], f_contains = None\<rparr>"
        and all_rows = mixed_rows and e = TypeError] m
    by (simp add: g_cfg_def)
qed

text \<open>
  The claim as it stands fails: a row with no \<^verbatim>\<open>dept\<close> field, aggregated by
  \<^verbatim>\<open>seriesBy = 'dept'\<close>, contributes its 5 to the series named \<^verbatim>\<open>Total\<close> of the output.
\<close>

theorem missing_series_counterexample:
  "bare_row ''dept'' = None
   \<and> aggregate_data sample_rt [bare_row] (g_cfg\<lparr>seriesBy := ''dept''\<rparr>)
     = Inr \<lparr>groups = [PStr ''A''], series = [PStr ''Total''],
            data = [\<lparr>group = PStr ''A'', series_data = [(PStr ''Total'', Fin 5)]\<rparr>]\<rparr>"
  by (simp add: eval_defs g_cfg_def bare_row_def)

section \<open>Properties of the value normaliser\<close>









end
